theory Spec2Isabelle
  imports Main "HOL-Library.Sublist"
begin

section \<open>Thrown values, messages and aggregates\<close>

text \<open>
  A \<^verbatim>\<open>catch (error)\<close> clause of the source receives whatever was thrown, and the
  source tests it with \<^verbatim>\<open>if (error)\<close> and \<^verbatim>\<open>error instanceof Error\<close>. The values
  that matter for these tests are kept apart: \<open>JsError name message\<close> is an \<^verbatim>\<open>Error\<close>
  object, \<open>JsUndefined\<close> is also the value of an omitted argument.
\<close>

datatype js_value = JsUndefined | JsNull | JsString string | JsError string string

text \<open>The truthiness test of \<^verbatim>\<open>if (error)\<close>.\<close>

fun truthy :: "js_value \<Rightarrow> bool" where
  "truthy JsUndefined = False"
| "truthy JsNull = False"
| "truthy (JsString s) = (s \<noteq> [])"
| "truthy (JsError n m) = True"

text \<open>\<^verbatim>\<open>error instanceof Error ? error.message : String(error)\<close> of \<^verbatim>\<open>IHandler.handle\<close>.\<close>

fun error_text :: "js_value \<Rightarrow> string" where
  "error_text (JsError n m) = m"
| "error_text (JsString s) = s"
| "error_text JsUndefined = ''undefined''"
| "error_text JsNull = ''null''"

text \<open>
  \<^verbatim>\<open>error.name\<close> and \<^verbatim>\<open>error.message\<close> as \<^verbatim>\<open>_logException\<close> interpolates them; it is
  only reached with a truthy value, and a string has neither property.
\<close>

fun prop_name :: "js_value \<Rightarrow> string" where
  "prop_name (JsError n m) = n"
| "prop_name v = ''undefined''"

fun prop_message :: "js_value \<Rightarrow> string" where
  "prop_message (JsError n m) = m"
| "prop_message v = ''undefined''"

text \<open>Aggregates live in a heap and are referred to by address, as objects are by reference.\<close>

type_synonym addr = nat

text \<open>
  \<^verbatim>\<open>IEvent\<close>: the variant (the name of the concrete class), the aggregate it refers to
  and the optional error string.
\<close>

datatype event = Event string addr "string option"

text \<open>
  Modelled from the spec: the message base class and the command class
  (\<^verbatim>\<open>IMessage.ts\<close>, \<^verbatim>\<open>ICommand.ts\<close>) are not among the sources. A message carries the
  identity of its concrete variant, which is the routing key; a command carries an
  \<^verbatim>\<open>external_job_id\<close> as well. A message is a command, an event, or an instance of some
  other subclass of the message base.
\<close>

datatype message = Command string string | Evt event | Plain string

text \<open>\<^verbatim>\<open>IDomain\<close>: the correlation id, the data mapping and the buffer of pending events.\<close>

record domain =
  external_job_id :: string
  data :: "(string \<times> string) list"
  events :: "event list"

definition addEvent :: "event \<Rightarrow> domain \<Rightarrow> domain" where
  "addEvent e d = d\<lparr>events := events d @ [e]\<rparr>"

definition clearEvents :: "domain \<Rightarrow> domain" where
  "clearEvents d = d\<lparr>events := []\<rparr>"

section \<open>State, calls and control flow\<close>

text \<open>
  What a concrete repository and its storage own: the \<^verbatim>\<open>seen\<close> set in insertion order
  (\<open>None\<close> for a repository object without a \<^verbatim>\<open>seen\<close> property), the aggregates, and
  the storage backend, whose type is left open.
\<close>

record 'b store =
  seen :: "addr list option"
  heap :: "addr \<Rightarrow> domain"
  backend :: 'b

text \<open>The calls the framework makes to its collaborators, in the order it makes them.\<close>

datatype call =
    SetDbSession
  | CloseDbSession
  | Commit
  | Rollback
  | RepoAdd addr
  | RepoGet string "string option"
  | RepoUpdate addr
  | ConsoleError string

text \<open>
  The mutable state of one handler instance with its Unit of Work:
  \<^verbatim>\<open>IHandler._return_messages\<close>, \<^verbatim>\<open>IUnitOfWork._events\<close>, the repository's state and
  the trace of calls made so far.
\<close>

record 'b world =
  return_messages :: "message list"
  uow_events :: "message list"
  store :: "'b store"
  calls :: "call list"

text \<open>A piece of code runs on a state and either returns a value or throws one.\<close>

type_synonym ('w, 'a) prog = "'w \<Rightarrow> (js_value + 'a) \<times> 'w"

definition ret :: "'a \<Rightarrow> ('w, 'a) prog" where
  "ret v w = (Inr v, w)"

definition throw :: "js_value \<Rightarrow> ('w, 'a) prog" where
  "throw e w = (Inl e, w)"

definition and_then :: "('w, 'a) prog \<Rightarrow> ('a \<Rightarrow> ('w, 'c) prog) \<Rightarrow> ('w, 'c) prog" where
  "and_then p f w = (case p w of (Inl e, w1) \<Rightarrow> (Inl e, w1) | (Inr v, w1) \<Rightarrow> f v w1)"

text \<open>\<^verbatim>\<open>try { body } catch (error) { handler }\<close>.\<close>

definition try_catch :: "('w, 'a) prog \<Rightarrow> (js_value \<Rightarrow> ('w, 'a) prog) \<Rightarrow> ('w, 'a) prog" where
  "try_catch body handler w =
     (case body w of (Inl e, w1) \<Rightarrow> handler e w1 | (Inr v, w1) \<Rightarrow> (Inr v, w1))"

text \<open>
  \<^verbatim>\<open>try { body } finally { fin }\<close>: \<open>fin\<close> runs on every path; when it throws, its error
  replaces the outcome of \<open>body\<close>, otherwise that outcome stands.
\<close>

definition try_finally :: "('w, 'a) prog \<Rightarrow> ('w, unit) prog \<Rightarrow> ('w, 'a) prog" where
  "try_finally body fin w =
     (case body w of (r, w1) \<Rightarrow>
        (case fin w1 of (Inl e, w2) \<Rightarrow> (Inl e, w2) | (Inr u, w2) \<Rightarrow> (r, w2)))"

text \<open>
  How a call to a collaborator ends: it returns a value (or a promise fulfilled with it),
  it returns a promise that rejects, or it throws before returning anything.
\<close>

datatype 'a completion = Fulfilled 'a | Rejected js_value | Threw js_value

type_synonym ('b, 'a) hook = "'b store \<Rightarrow> 'a completion \<times> 'b store"

text \<open>
  \<^verbatim>\<open>await f(...)\<close>: a rejection and a throw both arrive as a thrown value. The call is
  recorded, and the collaborator acts on the repository's state only.
\<close>

definition call_await :: "call \<Rightarrow> ('b, 'a) hook \<Rightarrow> ('b world, 'a) prog" where
  "call_await c h w =
     (case h (store w) of (r, s1) \<Rightarrow>
        (case r of Fulfilled v \<Rightarrow> Inr v | Rejected e \<Rightarrow> Inl e | Threw e \<Rightarrow> Inl e,
         w\<lparr>store := s1, calls := calls w @ [c]\<rparr>))"

text \<open>
  \<^verbatim>\<open>f(...);\<close> as a statement, with no \<^verbatim>\<open>await\<close>: only a throw reaches the caller; a
  returned promise is dropped, rejected or not.
\<close>

definition call_sync :: "call \<Rightarrow> ('b, unit) hook \<Rightarrow> ('b world, unit) prog" where
  "call_sync c h w =
     (case h (store w) of (r, s1) \<Rightarrow>
        (case r of Threw e \<Rightarrow> Inl e | Fulfilled v \<Rightarrow> Inr () | Rejected e \<Rightarrow> Inr (),
         w\<lparr>store := s1, calls := calls w @ [c]\<rparr>))"

definition console_error :: "string \<Rightarrow> ('b world, unit) prog" where
  "console_error s w = (Inr (), w\<lparr>calls := calls w @ [ConsoleError s]\<rparr>)"

section \<open>The repository interface and the Unit of Work\<close>

text \<open>An implementation of \<^verbatim>\<open>IDomainRepo\<close>.\<close>

record 'b repo_impl =
  add_domain :: "addr \<Rightarrow> ('b, unit) hook"
  get_domain :: "string \<Rightarrow> string option \<Rightarrow> ('b, addr option) hook"
  update_domain :: "addr \<Rightarrow> ('b, unit) hook"
  setDbSession :: "('b, unit) hook"
  closeDbSession :: "('b, unit) hook"

text \<open>
  A concrete subclass of \<^verbatim>\<open>IUnitOfWork\<close>: the repository it attached (\<open>None\<close> while
  \<^verbatim>\<open>_repo\<close> is unset) and its \<^verbatim>\<open>_commit\<close> and \<^verbatim>\<open>_rollback\<close>.
\<close>

record 'b uow_impl =
  repo :: "'b repo_impl option"
  commit_hook :: "('b, unit) hook"
  rollback_hook :: "('b, unit) hook"

text \<open>Reading a property of the unset \<^verbatim>\<open>_repo\<close>.\<close>

definition type_error :: js_value where
  "type_error = JsError ''TypeError'' ''Cannot read properties of undefined''"

definition with_repo :: "'b uow_impl \<Rightarrow> ('b repo_impl \<Rightarrow> ('b world, 'a) prog) \<Rightarrow> ('b world, 'a) prog" where
  "with_repo u f = (case repo u of None \<Rightarrow> throw type_error | Some r \<Rightarrow> f r)"

definition enter :: "'b uow_impl \<Rightarrow> ('b world, unit) prog" where
  "enter u = with_repo u (\<lambda>r. call_sync SetDbSession (setDbSession r))"

definition logException :: "js_value \<Rightarrow> ('b world, unit) prog" where
  "logException error =
     console_error (''Exception in UnitOfWork: '' @ prop_name error @ '' - '' @ prop_message error)"

text \<open>\<^verbatim>\<open>exit(error?)\<close>; the omitted argument is \<open>JsUndefined\<close>.\<close>

definition uow_exit :: "'b uow_impl \<Rightarrow> js_value \<Rightarrow> ('b world, unit) prog" where
  "uow_exit u error =
     and_then
       (if truthy error
        then and_then (logException error) (\<lambda>_. call_await Rollback (rollback_hook u))
        else ret ())
       (\<lambda>_. with_repo u (\<lambda>r. call_sync CloseDbSession (closeDbSession r)))"

definition commit :: "'b uow_impl \<Rightarrow> ('b world, unit) prog" where
  "commit u = call_await Commit (commit_hook u)"

text \<open>
  The inner loop of \<^verbatim>\<open>collectNewEvents\<close>: while the buffer is not empty, take its first
  event and push it onto \<^verbatim>\<open>_events\<close>. The result is the buffer left and the new
  \<^verbatim>\<open>_events\<close>.
\<close>

fun shift_all :: "event list \<Rightarrow> message list \<Rightarrow> event list \<times> message list" where
  "shift_all [] acc = ([], acc)"
| "shift_all (e # es) acc = shift_all es (acc @ [Evt e])"

text \<open>One round of the outer loop, for the aggregate at address \<open>a\<close>.\<close>

definition harvest :: "addr \<Rightarrow> 'b world \<Rightarrow> 'b world" where
  "harvest a w =
     (case shift_all (events (heap (store w) a)) (uow_events w) of (buf, acc) \<Rightarrow>
        w\<lparr>uow_events := acc,
          store := (store w)\<lparr>heap := (heap (store w))(a := (heap (store w) a)\<lparr>events := buf\<rparr>)\<rparr>\<rparr>)"

definition collectNewEvents :: "'b uow_impl \<Rightarrow> ('b world, message list) prog" where
  "collectNewEvents u w =
     (case repo u of
        None \<Rightarrow> (Inl (JsError ''Error'' ''Repository not initialized''), w)
      | Some r \<Rightarrow>
          (case seen (store w) of
             None \<Rightarrow> (Inr (uow_events w), w)
           | Some ds \<Rightarrow> (let w1 = fold harvest ds w in (Inr (uow_events w1), w1))))"

text \<open>
  The error handling shared by \<^verbatim>\<open>add\<close>, \<^verbatim>\<open>get\<close> and \<^verbatim>\<open>update\<close>:
  \<^verbatim>\<open>try { body } catch (error) { await this.exit(error); throw error; }
  finally { await this.exit(); }\<close> after \<^verbatim>\<open>await this.enter()\<close>.
\<close>

definition envelope :: "'b uow_impl \<Rightarrow> ('b world, 'a) prog \<Rightarrow> ('b world, 'a) prog" where
  "envelope u body =
     and_then (enter u) (\<lambda>_.
       try_finally
         (try_catch body (\<lambda>error. and_then (uow_exit u error) (\<lambda>_. throw error)))
         (uow_exit u JsUndefined))"

definition work_add :: "'b uow_impl \<Rightarrow> addr \<Rightarrow> ('b world, unit) prog" where
  "work_add u d =
     envelope u
       (and_then (with_repo u (\<lambda>r. call_await (RepoAdd d) (add_domain r d))) (\<lambda>_.
        and_then (commit u) (\<lambda>_.
        and_then (collectNewEvents u) (\<lambda>_. ret ()))))"

definition work_get :: "'b uow_impl \<Rightarrow> string \<Rightarrow> string option \<Rightarrow> ('b world, addr option) prog" where
  "work_get u i batchIdentifier =
     envelope u
       (and_then (with_repo u (\<lambda>r. call_await (RepoGet i batchIdentifier) (get_domain r i batchIdentifier)))
          (\<lambda>d. and_then (commit u) (\<lambda>_. ret d)))"

text \<open>
  \<^verbatim>\<open>update\<close> calls \<^verbatim>\<open>this.repo.update(domain)\<close> without \<^verbatim>\<open>await\<close>. What the call
  does to the repository's state is taken to be done when the call returns.
\<close>

definition work_update :: "'b uow_impl \<Rightarrow> addr \<Rightarrow> ('b world, unit) prog" where
  "work_update u d =
     envelope u
       (and_then (with_repo u (\<lambda>r. call_sync (RepoUpdate d) (update_domain r d))) (\<lambda>_.
        and_then (commit u) (\<lambda>_.
        and_then (collectNewEvents u) (\<lambda>_. ret ()))))"

section \<open>The handler template\<close>

text \<open>
  A concrete handler: the name of its class, its Unit of Work if it has one, and its
  \<^verbatim>\<open>_handle\<close>, which runs on the whole state and may call the Unit of Work.
\<close>

record 'b handler_impl =
  hname :: string
  uow :: "'b uow_impl option"
  h_handle :: "message \<Rightarrow> ('b world, unit) prog"

definition logError :: "'b handler_impl \<Rightarrow> string \<Rightarrow> ('b world, unit) prog" where
  "logError h error =
     console_error (hname h @ '' | Error: '' @ error @ '' | Context: undefined'')"

definition addMessages :: "message list \<Rightarrow> ('b world, unit) prog" where
  "addMessages messages w = (Inr (), w\<lparr>return_messages := return_messages w @ messages\<rparr>)"

definition finish :: "('b world, message list) prog" where
  "finish w = (Inr (return_messages w), w)"

text \<open>
  The \<^verbatim>\<open>try\<close> block of the branch with a Unit of Work, and the \<^verbatim>\<open>catch\<close> block both
  branches share. The second test of \<^verbatim>\<open>this.uow\<close> inside the block is the first one
  again.
\<close>

definition handle_try :: "'b handler_impl \<Rightarrow> 'b uow_impl \<Rightarrow> message \<Rightarrow> ('b world, message list) prog" where
  "handle_try h u message =
     and_then (h_handle h message) (\<lambda>_.
     and_then (collectNewEvents u) (\<lambda>evs.
     and_then (addMessages evs) (\<lambda>_.
     and_then (commit u) (\<lambda>_. finish))))"

definition handle_catch :: "'b handler_impl \<Rightarrow> js_value \<Rightarrow> ('b world, message list) prog" where
  "handle_catch h error = and_then (logError h (error_text error)) (\<lambda>_. throw error)"

definition handle :: "'b handler_impl \<Rightarrow> message \<Rightarrow> ('b world, message list) prog" where
  "handle h message =
     (case uow h of
        Some u \<Rightarrow>
          and_then (enter u) (\<lambda>_.
            try_finally
              (try_catch (handle_try h u message) (handle_catch h))
              (uow_exit u JsUndefined))
      | None \<Rightarrow>
          try_catch (and_then (h_handle h message) (\<lambda>_. finish)) (handle_catch h))"

section \<open>The message bus\<close>

text \<open>
  The bus sees a handler only through its \<^verbatim>\<open>handle\<close> method, which runs on some state
  \<open>'s\<close> and returns new messages or throws. The two maps are keyed by variant.
\<close>

type_synonym 's handler_fn = "message \<Rightarrow> ('s, message list) prog"

record 's bus =
  commandHandlers :: "string \<rightharpoonup> 's handler_fn"
  eventHandlers :: "string \<rightharpoonup> 's handler_fn"

text \<open>The state of the loop: the queue field of the bus and the state the handlers act on.\<close>

type_synonym 's bus_state = "message list \<times> 's"

definition handleCommand :: "'s bus \<Rightarrow> string \<Rightarrow> message \<Rightarrow> ('s bus_state, unit) prog" where
  "handleCommand b handlerKey command = (\<lambda>(q, s).
     (case commandHandlers b handlerKey of
        None \<Rightarrow> (Inl (JsError ''Error'' (''No handler found for command: '' @ handlerKey)), (q, s))
      | Some handler \<Rightarrow>
          (case handler command s of
             (Inl e, s1) \<Rightarrow> (Inl e, (q, s1))
           | (Inr newMessages, s1) \<Rightarrow> (Inr (), (q @ newMessages, s1)))))"

definition handleEvent :: "'s bus \<Rightarrow> string \<Rightarrow> message \<Rightarrow> ('s bus_state, unit) prog" where
  "handleEvent b handlerKey ev = (\<lambda>(q, s).
     (case eventHandlers b handlerKey of
        None \<Rightarrow> (Inr (), (q, s))
      | Some handler \<Rightarrow>
          (case handler ev s of
             (Inl e, s1) \<Rightarrow> (Inl e, (q, s1))
           | (Inr newMessages, s1) \<Rightarrow> (Inr (), (q @ newMessages, s1)))))"

text \<open>
  The body of the loop after \<^verbatim>\<open>shift\<close>: a command, an event, or neither. The text
  of a message that is neither is the one JavaScript gives an object by default.
\<close>

fun dispatch :: "'s bus \<Rightarrow> message \<Rightarrow> ('s bus_state, unit) prog" where
  "dispatch b (Command v j) = handleCommand b v (Command v j)"
| "dispatch b (Evt (Event v d er)) = handleEvent b v (Evt (Event v d er))"
| "dispatch b (Plain v) =
     throw (JsError ''Error'' ''[object Object] was not a Command or Event'')"

text \<open>
  The outcome of a run of the loop: how it ended, the queue and the state it left, and the
  messages it took from the queue, in the order it took them.
\<close>

datatype ending = Resolved | Rejects js_value

record 's run =
  ending :: ending
  queue_left :: "message list"
  final :: 's
  processed :: "message list"

text \<open>
  The \<^verbatim>\<open>while\<close> loop of \<^verbatim>\<open>MessageBus.handle\<close>. A chain can go on for ever, so the
  loop takes a bound on the number of messages it dispatches and returns \<open>None\<close> when
  the bound is used up with messages still queued.
\<close>

fun bus_loop :: "nat \<Rightarrow> 's bus \<Rightarrow> message list \<Rightarrow> 's \<Rightarrow> message list \<Rightarrow> 's run option" where
  "bus_loop n b [] s done =
     Some \<lparr>ending = Resolved, queue_left = [], final = s, processed = done\<rparr>"
| "bus_loop 0 b (m # q) s done = None"
| "bus_loop (Suc n) b (m # q) s done =
     (case dispatch b m (q, s) of
        (Inl e, (q1, s1)) \<Rightarrow>
          Some \<lparr>ending = Rejects e, queue_left = q1, final = s1, processed = done @ [m]\<rparr>
      | (Inr u, (q1, s1)) \<Rightarrow> bus_loop n b q1 s1 (done @ [m]))"

text \<open>\<^verbatim>\<open>MessageBus.handle\<close>: the queue is reset to the one message, then the loop runs.\<close>

definition bus_handle :: "nat \<Rightarrow> 's bus \<Rightarrow> message \<Rightarrow> 's \<Rightarrow> 's run option" where
  "bus_handle n b message s = bus_loop n b [message] s []"


text \<open>
  The handler the loop resolves for a message: \<^verbatim>\<open>commandHandlers.get\<close> for a command,
  \<^verbatim>\<open>eventHandlers.get\<close> for an event, none for anything else.
\<close>

fun handler_for :: "'s bus \<Rightarrow> message \<Rightarrow> 's handler_fn option" where
  "handler_for b (Command v j) = commandHandlers b v"
| "handler_for b (Evt (Event v d er)) = eventHandlers b v"
| "handler_for b (Plain v) = None"

text \<open>An event whose variant has no entry in the event-handler mapping.\<close>

fun unhandled_event :: "'s bus \<Rightarrow> message \<Rightarrow> bool" where
  "unhandled_event b (Evt (Event v d er)) =
     (case eventHandlers b v of None \<Rightarrow> True | Some h \<Rightarrow> False)"
| "unhandled_event b m = False"

section \<open>Concrete collaborators\<close>

text \<open>
  An in-memory repository over a storage without content: \<^verbatim>\<open>add\<close> and \<^verbatim>\<open>update\<close> put
  the aggregate into \<^verbatim>\<open>seen\<close>, and no call fails.
\<close>

definition quiet :: "(unit, unit) hook" where
  "quiet s = (Fulfilled (), s)"

definition see :: "addr \<Rightarrow> (unit, unit) hook" where
  "see d s =
     (Fulfilled (), s\<lparr>seen := map_option (\<lambda>ds. if d \<in> set ds then ds else ds @ [d]) (seen s)\<rparr>)"

definition memory_repo :: "unit repo_impl" where
  "memory_repo =
     \<lparr>add_domain = see, get_domain = (\<lambda>i b s. (Fulfilled None, s)), update_domain = see,
      setDbSession = quiet, closeDbSession = quiet\<rparr>"

definition memory_uow :: "unit uow_impl" where
  "memory_uow = \<lparr>repo = Some memory_repo, commit_hook = quiet, rollback_hook = quiet\<rparr>"

text \<open>The same repository with an \<^verbatim>\<open>add\<close> and an \<^verbatim>\<open>update\<close> whose promise rejects.\<close>

definition boom :: js_value where
  "boom = JsError ''Error'' ''boom''"

definition rejecting_repo :: "unit repo_impl" where
  "rejecting_repo =
     memory_repo\<lparr>add_domain := (\<lambda>d s. (Rejected boom, s)),
                 update_domain := (\<lambda>d s. (Rejected boom, s))\<rparr>"

definition rejecting_uow :: "unit uow_impl" where
  "rejecting_uow = memory_uow\<lparr>repo := Some rejecting_repo\<rparr>"

text \<open>A handler instance as its constructor leaves it, over a repository that has seen nothing.\<close>

definition blank_domain :: domain where
  "blank_domain = \<lparr>external_job_id = ''job-1'', data = [], events = []\<rparr>"

definition fresh_world :: "unit world" where
  "fresh_world =
     \<lparr>return_messages = [], uow_events = [],
      store = \<lparr>seen = Some [], heap = (\<lambda>a. blank_domain), backend = ()\<rparr>,
      calls = []\<rparr>"

text \<open>Business logic: the aggregate at \<open>a\<close> records an event (\<^verbatim>\<open>domain.addEvent\<close>).\<close>

definition raise_event :: "addr \<Rightarrow> event \<Rightarrow> ('b world, unit) prog" where
  "raise_event a e w =
     (Inr (), w\<lparr>store := (store w)\<lparr>heap := (heap (store w))(a := addEvent e (heap (store w) a))\<rparr>\<rparr>)"

definition x_created :: event where
  "x_created = Event ''XCreated'' 0 None"

text \<open>
  A command handler with a Unit of Work, as in the README: its aggregate records
  \<^verbatim>\<open>XCreated\<close> and is stored with \<^verbatim>\<open>uow.add\<close>.
\<close>

definition create_handler :: "unit handler_impl" where
  "create_handler =
     \<lparr>hname = ''CreateXHandler'', uow = Some memory_uow,
      h_handle = (\<lambda>m. and_then (raise_event 0 x_created) (\<lambda>_. work_add memory_uow 0))\<rparr>"

text \<open>The same handler with business logic that throws.\<close>

definition boom_handler :: "unit handler_impl" where
  "boom_handler = create_handler\<lparr>h_handle := (\<lambda>m. throw boom)\<rparr>"

text \<open>
  An event handler without a Unit of Work: it answers an event about an aggregate with a
  \<^verbatim>\<open>Notified\<close> event about the same aggregate.
\<close>

definition notify_handler :: "unit handler_impl" where
  "notify_handler =
     \<lparr>hname = ''NotifyHandler'', uow = None,
      h_handle = (\<lambda>m. case m of
                        Evt (Event v a er) \<Rightarrow> addMessages [Evt (Event ''Notified'' a None)]
                      | _ \<Rightarrow> ret ())\<rparr>"


text \<open>
  A Unit of Work in mid-flight: one event harvested earlier, and the aggregates at
  addresses 0 and 1 seen, each with one pending event.
\<close>

definition pending_world :: "unit world" where
  "pending_world =
     \<lparr>return_messages = [], uow_events = [Evt (Event ''Earlier'' 0 None)],
      store = \<lparr>seen = Some [0, 1],
               heap = (\<lambda>a. blank_domain\<lparr>events := [Event ''XCreated'' a None]\<rparr>),
               backend = ()\<rparr>,
      calls = []\<rparr>"




text \<open>
  A bus for the chain \<open>A \<rightarrow> [B, C]\<close>, \<open>B \<rightarrow> [B1]\<close>, \<open>C \<rightarrow> [C1]\<close>, with no handler for
  \<open>B1\<close> and \<open>C1\<close>; its handlers keep no state.
\<close>

definition emit :: "message list \<Rightarrow> unit handler_fn" where
  "emit ms m s = (Inr ms, s)"

definition ev :: "string \<Rightarrow> message" where
  "ev v = Evt (Event v 0 None)"

definition chain_bus :: "unit bus" where
  "chain_bus =
     \<lparr>commandHandlers = [''A'' \<mapsto> emit [ev ''B'', ev ''C'']],
      eventHandlers = [''B'' \<mapsto> emit [ev ''B1''], ''C'' \<mapsto> emit [ev ''C1'']]\<rparr>"

section \<open>The message bus: routing and order\<close>

lemma dispatch_handled:
  "handler_for b m = Some h \<Longrightarrow> h m s = (Inr new, s1) \<Longrightarrow>
   dispatch b m (q, s) = (Inr (), (q @ new, s1))"
  by (induction b m rule: handler_for.induct) (simp_all add: handleCommand_def handleEvent_def)

lemma dispatch_unhandled_event:
  "unhandled_event b m \<Longrightarrow> dispatch b m (q, s) = (Inr (), (q, s))"
  by (induction b m rule: unhandled_event.induct)
     (simp_all add: handleEvent_def split: option.splits)

lemma dispatch_extends_queue:
  "dispatch b m (q, s) = (r, (q1, s1)) \<Longrightarrow> \<exists>new. q1 = q @ new"
  by (induction b m rule: dispatch.induct)
     (auto simp: handleCommand_def handleEvent_def throw_def
           split: option.splits prod.splits sum.splits)

text \<open>A queue of events without handlers is emptied, given a bound that covers its length.\<close>

lemma bus_loop_unhandled_events:
  "list_all (unhandled_event b) q \<Longrightarrow> length q \<le> n \<Longrightarrow>
   bus_loop n b q s done =
     Some \<lparr>ending = Resolved, queue_left = [], final = s, processed = done @ q\<rparr>"
proof (induction q arbitrary: n "done")
  case Nil
  then show ?case by simp
next
  case (Cons m q)
  then obtain k where n: "n = Suc k" and k: "length q \<le> k"
    by (cases n) auto
  from Cons.prems have m: "unhandled_event b m" and q: "list_all (unhandled_event b) q"
    by auto
  show ?case
    using Cons.IH [OF q k, of "done @ [m]"] dispatch_unhandled_event [OF m, of q s]
    by (simp add: n)
qed

text \<open>
  The loop takes messages in queue order: what it has processed when it ends and the
  queue it started from (after the messages processed before) are one a prefix of the
  other, and a run that resolves has processed the whole queue first.
\<close>

lemma bus_loop_order:
  "bus_loop n b q s done = Some r \<Longrightarrow>
   (prefix (processed r) (done @ q) \<or> prefix (done @ q) (processed r)) \<and>
   (ending r = Resolved \<longrightarrow> prefix (done @ q) (processed r))"
proof (induction n arbitrary: q s "done")
  case 0
  then show ?case by (cases q) auto
next
  case (Suc n)
  show ?case
  proof (cases q)
    case Nil
    with Suc.prems show ?thesis by auto
  next
    case (Cons m q')
    obtain res q1 s1 where d: "dispatch b m (q', s) = (res, (q1, s1))"
      using prod_cases3 by blast
    from dispatch_extends_queue [OF d] obtain new where q1: "q1 = q' @ new" ..
    show ?thesis
    proof (cases res)
      case (Inl e)
      from Suc.prems
      have "r = \<lparr>ending = Rejects e, queue_left = q1, final = s1, processed = done @ [m]\<rparr>"
        by (simp add: Cons d Inl)
      then show ?thesis by (simp add: Cons)
    next
      case (Inr u)
      from Suc.prems have run: "bus_loop n b q1 s1 (done @ [m]) = Some r"
        by (simp add: Cons d Inr)
      note ih = Suc.IH [OF run]
      have ext: "prefix (done @ q) ((done @ [m]) @ q1)"
        by (simp add: q1 Cons)
      from ih ext show ?thesis
        by (meson prefix_order.trans prefix_same_cases)
    qed
  qed
qed

text \<open>
  C7. When the handler resolved for the message at the head of the queue returns the
  messages \<open>new\<close>, they are appended to the tail of the queue in the order returned, the
  loop goes on with that queue, and every run processes the messages in the order
  "the message, what was queued behind it, then \<open>new\<close>": what a run has processed is a
  prefix of that order or extends it, and a run that resolves extends it.
\<close>

theorem returned_messages_fifo:
  assumes "handler_for b m = Some h" and "h m s = (Inr new, s1)"
  shows "dispatch b m (q, s) = (Inr (), (q @ new, s1)) \<and>
         bus_loop (Suc n) b (m # q) s done = bus_loop n b (q @ new) s1 (done @ [m]) \<and>
         (\<forall>r. bus_loop (Suc n) b (m # q) s done = Some r \<longrightarrow>
              (prefix (processed r) (done @ m # q @ new) \<or>
               prefix (done @ m # q @ new) (processed r)) \<and>
              (ending r = Resolved \<longrightarrow> prefix (done @ m # q @ new) (processed r)))"
proof -
  have step: "dispatch b m (q, s) = (Inr (), (q @ new, s1))"
    using assms by (rule dispatch_handled)
  then have next_round:
    "bus_loop (Suc n) b (m # q) s done = bus_loop n b (q @ new) s1 (done @ [m])"
    by simp
  have "(prefix (processed r) (done @ m # q @ new) \<or>
         prefix (done @ m # q @ new) (processed r)) \<and>
        (ending r = Resolved \<longrightarrow> prefix (done @ m # q @ new) (processed r))"
    if "bus_loop (Suc n) b (m # q) s done = Some r" for r
    using bus_loop_order [of n b "q @ new" s1 "done @ [m]" r] that next_round by simp
  with step next_round show ?thesis by blast
qed

theorem returned_messages_fifo_witness:
  "handler_for chain_bus (ev ''B'') = Some (emit [ev ''B1'']) \<and>
   emit [ev ''B1''] (ev ''B'') () = (Inr [ev ''B1''], ()) \<and>
   dispatch chain_bus (ev ''B'') ([ev ''C''], ()) = (Inr (), ([ev ''C'', ev ''B1''], ())) \<and>
   bus_loop 4 chain_bus [ev ''B'', ev ''C''] () [Command ''A'' ''job''] =
     Some \<lparr>ending = Resolved, queue_left = [], final = (),
           processed = [Command ''A'' ''job'', ev ''B'', ev ''C'', ev ''B1'', ev ''C1'']\<rparr> \<and>
   prefix [Command ''A'' ''job'', ev ''B'', ev ''C'', ev ''B1'']
          [Command ''A'' ''job'', ev ''B'', ev ''C'', ev ''B1'', ev ''C1'']"
proof -
  have h1: "handler_for chain_bus (ev ''B'') = Some (emit [ev ''B1''])"
    by (simp add: chain_bus_def ev_def)
  have h2: "emit [ev ''B1''] (ev ''B'') () = (Inr [ev ''B1''], ())"
    by (simp add: emit_def)
  have run: "bus_loop (Suc 3) chain_bus [ev ''B'', ev ''C''] () [Command ''A'' ''job''] =
     Some \<lparr>ending = Resolved, queue_left = [], final = (),
           processed = [Command ''A'' ''job'', ev ''B'', ev ''C'', ev ''B1'', ev ''C1'']\<rparr>"
    by (simp add: chain_bus_def ev_def emit_def handleEvent_def numeral_3_eq_3)
  show ?thesis
    using h1 h2 run
      returned_messages_fifo [OF h1 h2, of "[ev ''C'']" 3 "[Command ''A'' ''job'']"]
    by (simp add: eval_nat_numeral)
qed

text \<open>
  C8. A command whose variant has no entry in the command-handler mapping makes the loop
  reject with an error whose message names the variant; nothing queued behind it is
  processed and the handlers' state is untouched. So does \<^verbatim>\<open>handle\<close> called with
  such a command.
\<close>

theorem unhandled_command_rejects:
  assumes "commandHandlers b v = None"
  shows "bus_loop (Suc n) b (Command v j # q) s done =
           Some \<lparr>ending = Rejects (JsError ''Error'' (''No handler found for command: '' @ v)),
                 queue_left = q, final = s, processed = done @ [Command v j]\<rparr> \<and>
         bus_handle (Suc n) b (Command v j) s =
           Some \<lparr>ending = Rejects (JsError ''Error'' (''No handler found for command: '' @ v)),
                 queue_left = [], final = s, processed = [Command v j]\<rparr>"
  using assms by (simp add: bus_handle_def handleCommand_def)

theorem unhandled_command_rejects_witness:
  "commandHandlers chain_bus ''Z'' = None \<and>
   bus_loop 1 chain_bus [Command ''Z'' ''job'', ev ''B''] () [] =
     Some \<lparr>ending = Rejects (JsError ''Error'' ''No handler found for command: Z''),
           queue_left = [ev ''B''], final = (), processed = [Command ''Z'' ''job'']\<rparr>"
proof -
  have h: "commandHandlers chain_bus ''Z'' = None"
    by (simp add: chain_bus_def)
  show ?thesis
    using h unhandled_command_rejects [OF h, of 0 "''job''" "[ev ''B'']" "()" "[]"]
    by simp
qed

text \<open>
  C9. An event whose variant has no entry in the event-handler mapping is dropped: the
  dispatch returns normally with the queue and the state as they were, the loop goes on
  with the rest of the queue, and when the rest holds only such events the run resolves,
  having taken each message once and enqueued nothing.
\<close>

theorem unhandled_event_dropped:
  assumes "eventHandlers b v = None"
  shows "dispatch b (Evt (Event v d er)) (q, s) = (Inr (), (q, s)) \<and>
         bus_loop (Suc n) b (Evt (Event v d er) # q) s done =
           bus_loop n b q s (done @ [Evt (Event v d er)]) \<and>
         (list_all (unhandled_event b) q \<and> length q \<le> n \<longrightarrow>
            bus_loop (Suc n) b (Evt (Event v d er) # q) s done =
              Some \<lparr>ending = Resolved, queue_left = [], final = s,
                    processed = done @ Evt (Event v d er) # q\<rparr>)"
proof -
  have step: "dispatch b (Evt (Event v d er)) (q, s) = (Inr (), (q, s))"
    using assms by (simp add: handleEvent_def)
  then have next_round: "bus_loop (Suc n) b (Evt (Event v d er) # q) s done =
      bus_loop n b q s (done @ [Evt (Event v d er)])"
    by simp
  show ?thesis
    using step next_round bus_loop_unhandled_events [of b q n s "done @ [Evt (Event v d er)]"]
    by simp
qed

theorem unhandled_event_dropped_witness:
  "eventHandlers chain_bus ''B1'' = None \<and>
   list_all (unhandled_event chain_bus) [ev ''C1''] \<and> length [ev ''C1''] \<le> 1 \<and>
   bus_loop (Suc 1) chain_bus [ev ''B1'', ev ''C1''] () [] =
     Some \<lparr>ending = Resolved, queue_left = [], final = (), processed = [ev ''B1'', ev ''C1'']\<rparr>"
proof -
  have h: "eventHandlers chain_bus ''B1'' = None"
    by (simp add: chain_bus_def)
  have rest: "list_all (unhandled_event chain_bus) [ev ''C1'']"
    by (simp add: chain_bus_def ev_def)
  have len: "length [ev ''C1''] \<le> 1"
    by simp
  show ?thesis
    using h rest len unhandled_event_dropped [OF h, of 0 None "[ev ''C1'']" "()" 1 "[]"]
    by (auto simp add: ev_def simp del: bus_loop.simps dispatch.simps unhandled_event.simps)
qed

section \<open>The Unit of Work: exit and harvesting\<close>

lemma console_error_calls:
  "console_error t w = (Inr (), w\<lparr>calls := calls w @ [ConsoleError t]\<rparr>)"
  by (simp add: console_error_def)

lemma call_sync_effect:
  "call_sync c k w = (res, w1) \<Longrightarrow>
   calls w1 = calls w @ [c] \<and> store w1 = snd (k (store w)) \<and>
   return_messages w1 = return_messages w \<and> uow_events w1 = uow_events w"
  by (auto simp: call_sync_def split: prod.splits)

lemma call_await_effect:
  "call_await c k w = (res, w1) \<Longrightarrow>
   calls w1 = calls w @ [c] \<and> store w1 = snd (k (store w)) \<and>
   return_messages w1 = return_messages w \<and> uow_events w1 = uow_events w"
  by (auto simp: call_await_def split: prod.splits)

lemma exit_falsy:
  "repo u = Some r \<Longrightarrow> \<not> truthy error \<Longrightarrow>
   uow_exit u error w = call_sync CloseDbSession (closeDbSession r) w"
  by (simp add: uow_exit_def and_then_def ret_def with_repo_def)

lemma exit_falsy_effect:
  assumes "repo u = Some r" and "\<not> truthy error" and "uow_exit u error w = (res, w1)"
  shows "calls w1 = calls w @ [CloseDbSession] \<and> store w1 = snd (closeDbSession r (store w)) \<and>
         return_messages w1 = return_messages w \<and> uow_events w1 = uow_events w"
  using assms call_sync_effect [of CloseDbSession "closeDbSession r" w res w1]
  by (simp add: exit_falsy)

lemma exit_rollback_only_on_error:
  "Rollback \<in> set (drop (length (calls w)) (calls (snd (uow_exit u error w)))) \<Longrightarrow> truthy error"
proof (rule ccontr)
  assume rb: "Rollback \<in> set (drop (length (calls w)) (calls (snd (uow_exit u error w))))"
  assume falsy: "\<not> truthy error"
  show False
  proof (cases "repo u")
    case None
    with falsy have "uow_exit u error w = (Inl type_error, w)"
      by (simp add: uow_exit_def and_then_def ret_def with_repo_def throw_def)
    with rb show False by simp
  next
    case (Some r)
    obtain res w1 where e: "uow_exit u error w = (res, w1)"
      by (cases "uow_exit u error w")
    from exit_falsy_effect [OF Some falsy e] rb e show False by simp
  qed
qed

text \<open>
  C10. With an attached repository, \<^verbatim>\<open>exit()\<close> without an argument is exactly the call
  of \<^verbatim>\<open>closeDbSession\<close>: that one call is all it adds to the trace (no rollback, no
  console output) and the repository's state is what \<^verbatim>\<open>closeDbSession\<close> leaves. For
  every argument, a rollback among the calls \<^verbatim>\<open>exit\<close> makes means the argument was a
  truthy value.
\<close>

theorem exit_without_error:
  assumes "repo u = Some r"
  shows "uow_exit u JsUndefined w = call_sync CloseDbSession (closeDbSession r) w \<and>
         calls (snd (uow_exit u JsUndefined w)) = calls w @ [CloseDbSession] \<and>
         store (snd (uow_exit u JsUndefined w)) = snd (closeDbSession r (store w)) \<and>
         (\<forall>error. Rollback \<in> set (drop (length (calls w)) (calls (snd (uow_exit u error w))))
            \<longrightarrow> truthy error)"
proof -
  have falsy: "\<not> truthy JsUndefined"
    by simp
  obtain res w1 where e: "uow_exit u JsUndefined w = (res, w1)"
    by (cases "uow_exit u JsUndefined w")
  from exit_falsy_effect [OF assms falsy e] e
  have "calls (snd (uow_exit u JsUndefined w)) = calls w @ [CloseDbSession]"
    and "store (snd (uow_exit u JsUndefined w)) = snd (closeDbSession r (store w))"
    by simp_all
  then show ?thesis
    using exit_falsy [OF assms falsy] exit_rollback_only_on_error by blast
qed

theorem exit_without_error_witness:
  "repo memory_uow = Some memory_repo \<and>
   calls (snd (uow_exit memory_uow JsUndefined fresh_world)) = [CloseDbSession] \<and>
   Rollback \<in> set (drop (length (calls fresh_world)) (calls (snd (uow_exit memory_uow boom fresh_world)))) \<and>
   truthy boom"
proof -
  have h: "repo memory_uow = Some memory_repo"
    by (simp add: memory_uow_def)
  have rb: "Rollback \<in> set (drop (length (calls fresh_world))
      (calls (snd (uow_exit memory_uow boom fresh_world))))"
    by (simp add: uow_exit_def and_then_def logException_def console_error_def call_await_def
        call_sync_def with_repo_def memory_uow_def memory_repo_def quiet_def boom_def
        fresh_world_def)
  show ?thesis
    using h rb exit_without_error [OF h, of fresh_world]
    by (simp add: fresh_world_def call_sync_def memory_repo_def quiet_def)
qed

lemma shift_all_eq: "shift_all es acc = ([], acc @ map Evt es)"
  by (induction es arbitrary: acc) simp_all

lemma harvest_simps [simp]:
  "uow_events (harvest a w) = uow_events w @ map Evt (events (heap (store w) a))"
  "heap (store (harvest a w)) = (heap (store w))(a := (heap (store w) a)\<lparr>events := []\<rparr>)"
  "seen (store (harvest a w)) = seen (store w)"
  "backend (store (harvest a w)) = backend (store w)"
  "calls (harvest a w) = calls w"
  "return_messages (harvest a w) = return_messages w"
  by (simp_all add: harvest_def shift_all_eq)

lemma clear_empty_buffer: "events d = [] \<Longrightarrow> d\<lparr>events := []\<rparr> = (d::domain)"
  by (cases d) simp

lemma harvest_nothing: "events (heap (store w) a) = [] \<Longrightarrow> harvest a w = w"
  by (simp add: harvest_def clear_empty_buffer)

lemma fold_harvest_frame [simp]:
  "calls (fold harvest ds w) = calls w"
  "return_messages (fold harvest ds w) = return_messages w"
  "seen (store (fold harvest ds w)) = seen (store w)"
  "backend (store (fold harvest ds w)) = backend (store w)"
  by (induction ds arbitrary: w) simp_all

lemma fold_harvest_buffers:
  "events (heap (store (fold harvest ds w)) a) =
     (if a \<in> set ds then [] else events (heap (store w) a))"
  by (induction ds arbitrary: w) auto

lemma fold_harvest_events:
  "distinct ds \<Longrightarrow>
   uow_events (fold harvest ds w) =
     uow_events w @ concat (map (\<lambda>a. map Evt (events (heap (store w) a))) ds)"
proof (induction ds arbitrary: w)
  case Nil
  then show ?case by simp
next
  case (Cons d ds)
  from Cons.prems have rest: "distinct ds" and fresh: "d \<notin> set ds"
    by simp_all
  from fresh have untouched:
    "map (\<lambda>a. map Evt (events (heap (store (harvest d w)) a))) ds =
     map (\<lambda>a. map Evt (events (heap (store w) a))) ds"
    by auto
  have "uow_events (fold harvest (d # ds) w) = uow_events (fold harvest ds (harvest d w))"
    by simp
  also have "\<dots> = uow_events (harvest d w) @
      concat (map (\<lambda>a. map Evt (events (heap (store (harvest d w)) a))) ds)"
    using rest by (rule Cons.IH)
  also have "\<dots> = (uow_events w @ map Evt (events (heap (store w) d))) @
      concat (map (\<lambda>a. map Evt (events (heap (store w) a))) ds)"
    by (simp only: untouched, simp)
  finally show ?case by simp
qed

lemma fold_harvest_nothing:
  "list_all (\<lambda>a. events (heap (store w) a) = []) ds \<Longrightarrow> fold harvest ds w = w"
  by (induction ds) (simp_all add: harvest_nothing)

text \<open>
  C6. With a repository attached whose \<^verbatim>\<open>seen\<close> set holds the aggregates \<open>ds\<close> (a set:
  each once, in insertion order), \<^verbatim>\<open>collectNewEvents\<close> returns the events accumulated
  before followed by the pending events of each aggregate of \<open>ds\<close> in turn, each buffer
  in its own order; afterwards the buffer of every aggregate of \<open>ds\<close> is empty; and
  calling it again at once returns the same list and changes nothing.
\<close>

theorem collectNewEvents_drains_once:
  assumes "repo u = Some r" and "seen (store w) = Some ds" and "distinct ds"
  shows "fst (collectNewEvents u w) =
           Inr (uow_events w @ concat (map (\<lambda>a. map Evt (events (heap (store w) a))) ds)) \<and>
         list_all (\<lambda>a. events (heap (store (snd (collectNewEvents u w))) a) = []) ds \<and>
         collectNewEvents u (snd (collectNewEvents u w)) =
           (Inr (uow_events w @ concat (map (\<lambda>a. map Evt (events (heap (store w) a))) ds)),
            snd (collectNewEvents u w))"
proof -
  let ?w1 = "fold harvest ds w"
  let ?acc = "uow_events w @ concat (map (\<lambda>a. map Evt (events (heap (store w) a))) ds)"
  have first: "collectNewEvents u w = (Inr ?acc, ?w1)"
    using assms by (simp add: collectNewEvents_def fold_harvest_events)
  have drained: "list_all (\<lambda>a. events (heap (store ?w1) a) = []) ds"
    by (simp add: list_all_iff fold_harvest_buffers)
  have again: "collectNewEvents u ?w1 = (Inr ?acc, ?w1)"
    using assms drained
    by (simp add: collectNewEvents_def fold_harvest_nothing fold_harvest_events)
  from first drained again show ?thesis by simp
qed

theorem collectNewEvents_drains_once_witness:
  "repo memory_uow = Some memory_repo \<and> seen (store pending_world) = Some [0, 1] \<and>
   distinct [0::nat, 1] \<and>
   fst (collectNewEvents memory_uow pending_world) =
     Inr [ev ''Earlier'', Evt (Event ''XCreated'' 0 None), Evt (Event ''XCreated'' 1 None)] \<and>
   list_all (\<lambda>a. events (heap (store (snd (collectNewEvents memory_uow pending_world))) a) = [])
     [0, 1]"
proof -
  have h1: "repo memory_uow = Some memory_repo"
    by (simp add: memory_uow_def)
  have h2: "seen (store pending_world) = Some [0, 1]"
    by (simp add: pending_world_def)
  have h3: "distinct [0::nat, 1]"
    by simp
  show ?thesis
    using h1 h2 h3 collectNewEvents_drains_once [OF h1 h2 h3]
    by (simp add: pending_world_def blank_domain_def ev_def)
qed

section \<open>The handler template: what one call does\<close>

lemma enter_ok:
  assumes "enter u w = (Inr (), w1)"
  shows "\<exists>r. repo u = Some r \<and> calls w1 = calls w @ [SetDbSession] \<and>
             return_messages w1 = return_messages w \<and> uow_events w1 = uow_events w"
proof (cases "repo u")
  case None
  with assms show ?thesis
    by (simp add: enter_def with_repo_def throw_def)
next
  case (Some r)
  with assms have "call_sync SetDbSession (setDbSession r) w = (Inr (), w1)"
    by (simp add: enter_def with_repo_def)
  from call_sync_effect [OF this] Some show ?thesis by simp
qed

lemma collect_frame:
  "collectNewEvents u w = (res, w1) \<Longrightarrow>
   calls w1 = calls w \<and> return_messages w1 = return_messages w"
  by (auto simp: collectNewEvents_def Let_def split: option.splits)

lemma collect_ok:
  "repo u = Some r \<Longrightarrow> \<exists>evs w1. collectNewEvents u w = (Inr evs, w1)"
  by (simp add: collectNewEvents_def Let_def split: option.splits)

lemma commit_effect:
  "commit u w = (res, w1) \<Longrightarrow>
   calls w1 = calls w @ [Commit] \<and> return_messages w1 = return_messages w"
  using call_await_effect [of Commit "commit_hook u" w res w1] by (simp add: commit_def)

lemma handle_catch_effect:
  "handle_catch h e w =
     (Inl e, w\<lparr>calls := calls w @
        [ConsoleError (hname h @ '' | Error: '' @ error_text e @ '' | Context: undefined'')]\<rparr>)"
  by (simp add: handle_catch_def logError_def console_error_def and_then_def throw_def)

text \<open>
  The \<^verbatim>\<open>try\<close> and \<^verbatim>\<open>catch\<close> blocks together, from the state \<^verbatim>\<open>_handle\<close> leaves:
  they call neither \<^verbatim>\<open>setDbSession\<close> nor \<^verbatim>\<open>closeDbSession\<close>.
\<close>

lemma handle_try_calls:
  assumes "repo u = Some r" and "h_handle h m w1 = (res, w2)"
  shows "\<exists>mid. calls (snd (try_catch (handle_try h u m) (handle_catch h) w1)) = calls w2 @ mid \<and>
               CloseDbSession \<notin> set mid \<and> SetDbSession \<notin> set mid"
proof (cases res)
  case (Inl e)
  with assms show ?thesis
    by (simp add: try_catch_def handle_try_def and_then_def handle_catch_effect)
next
  case (Inr x)
  from collect_ok [OF assms(1)] obtain evs w3 where c: "collectNewEvents u w2 = (Inr evs, w3)"
    by blast
  obtain u1 w4 where a: "addMessages evs w3 = (Inr u1, w4)" and a_calls: "calls w4 = calls w3"
    by (simp add: addMessages_def)
  obtain rc w5 where k: "commit u w4 = (rc, w5)"
    by (cases "commit u w4")
  from collect_frame [OF c] a_calls commit_effect [OF k]
  have w5: "calls w5 = calls w2 @ [Commit]"
    by simp
  show ?thesis
  proof (cases rc)
    case (Inl e)
    with assms Inr c a k w5 show ?thesis
      by (simp add: try_catch_def handle_try_def and_then_def handle_catch_effect)
  next
    case (Inr y)
    with assms \<open>res = Inr x\<close> c a k w5 show ?thesis
      by (simp add: try_catch_def handle_try_def and_then_def finish_def)
  qed
qed

lemma handle_with_uow:
  assumes "uow h = Some u" and "enter u w = (Inr (), w1)"
  shows "handle h m w =
     try_finally (try_catch (handle_try h u m) (handle_catch h)) (uow_exit u JsUndefined) w1"
  using assms by (simp add: handle_def and_then_def)

lemma try_finally_state:
  "snd (try_finally body fin w) = snd (fin (snd (body w)))"
  by (simp add: try_finally_def split: prod.splits sum.splits)

text \<open>
  C3, as the code has it. For a handler with a Unit of Work whose \<^verbatim>\<open>enter\<close> succeeded,
  one call of \<^verbatim>\<open>handle\<close> makes exactly one call of \<^verbatim>\<open>closeDbSession\<close> after
  \<^verbatim>\<open>_handle\<close> has ended, and no further \<^verbatim>\<open>setDbSession\<close>, whether \<^verbatim>\<open>_handle\<close> returned
  or threw and whatever the commit hook did: the number of \<^verbatim>\<open>closeDbSession\<close> calls at
  the end is one more than when \<^verbatim>\<open>_handle\<close> ended. So a call whose \<^verbatim>\<open>_handle\<close> makes
  no calls of its own releases the session exactly once.
\<close>

theorem handle_releases_once_after_business_logic:
  assumes "uow h = Some u" and "enter u w = (Inr (), w1)" and "h_handle h m w1 = (res, w2)"
  shows "count_list (calls (snd (handle h m w))) CloseDbSession =
           Suc (count_list (calls w2) CloseDbSession) \<and>
         count_list (calls (snd (handle h m w))) SetDbSession =
           count_list (calls w2) SetDbSession \<and>
         calls w1 = calls w @ [SetDbSession] \<and>
         (calls w2 = calls w1 \<longrightarrow>
            count_list (calls (snd (handle h m w))) CloseDbSession =
              Suc (count_list (calls w) CloseDbSession) \<and>
            count_list (calls (snd (handle h m w))) SetDbSession =
              Suc (count_list (calls w) SetDbSession))"
proof -
  from enter_ok [OF assms(2)] obtain r where r: "repo u = Some r"
    and w1: "calls w1 = calls w @ [SetDbSession]"
    by blast
  let ?w4 = "snd (try_catch (handle_try h u m) (handle_catch h) w1)"
  from handle_try_calls [OF r assms(3)] obtain mid where mid: "calls ?w4 = calls w2 @ mid"
    and quiet: "CloseDbSession \<notin> set mid" "SetDbSession \<notin> set mid"
    by blast
  obtain rx w5 where x: "uow_exit u JsUndefined ?w4 = (rx, w5)"
    by (cases "uow_exit u JsUndefined ?w4")
  have "\<not> truthy JsUndefined"
    by simp
  from exit_falsy_effect [OF r this x] have w5: "calls w5 = calls ?w4 @ [CloseDbSession]"
    by simp
  have "snd (handle h m w) = w5"
    using x by (simp add: handle_with_uow [OF assms(1,2)] try_finally_state)
  then have final: "calls (snd (handle h m w)) = calls w2 @ mid @ [CloseDbSession]"
    using w5 mid by simp
  from quiet have "count_list mid CloseDbSession = 0" "count_list mid SetDbSession = 0"
    by simp_all
  with final w1 show ?thesis by simp
qed

lemma fst_snd_pair: "fst p = a \<Longrightarrow> p = (a, snd p)"
  by (cases p) simp

theorem handle_releases_once_after_business_logic_witness:
  "uow boom_handler = Some memory_uow \<and>
   enter memory_uow fresh_world = (Inr (), snd (enter memory_uow fresh_world)) \<and>
   h_handle boom_handler (Command ''CreateX'' ''job-1'') (snd (enter memory_uow fresh_world)) =
     (Inl boom, snd (enter memory_uow fresh_world)) \<and>
   count_list (calls (snd (handle boom_handler (Command ''CreateX'' ''job-1'') fresh_world)))
     CloseDbSession = 1 \<and>
   count_list (calls (snd (handle boom_handler (Command ''CreateX'' ''job-1'') fresh_world)))
     SetDbSession = 1"
proof -
  have h1: "uow boom_handler = Some memory_uow"
    by (simp add: boom_handler_def create_handler_def)
  have "fst (enter memory_uow fresh_world) = Inr ()"
    by (simp add: enter_def with_repo_def call_sync_def memory_uow_def memory_repo_def quiet_def)
  then have h2: "enter memory_uow fresh_world = (Inr (), snd (enter memory_uow fresh_world))"
    by (rule fst_snd_pair)
  have h3: "h_handle boom_handler (Command ''CreateX'' ''job-1'')
      (snd (enter memory_uow fresh_world)) = (Inl boom, snd (enter memory_uow fresh_world))"
    by (simp add: boom_handler_def create_handler_def throw_def)
  have start: "calls fresh_world = []"
    by (simp add: fresh_world_def)
  show ?thesis
    using h1 h2 h3 handle_releases_once_after_business_logic [OF h1 h2 h3]
    by (simp add: start)
qed

text \<open>
  Against C3 as stated: the handler of the README stores its aggregate with
  \<^verbatim>\<open>uow.add\<close> inside \<^verbatim>\<open>_handle\<close>, and one call of its \<^verbatim>\<open>handle\<close> on a new instance
  calls \<^verbatim>\<open>closeDbSession\<close> twice.
\<close>

theorem handle_with_nested_add_releases_twice:
  "calls (snd (handle create_handler (Command ''CreateX'' ''job-1'') fresh_world)) =
     [SetDbSession, SetDbSession, RepoAdd 0, Commit, CloseDbSession, Commit, CloseDbSession] \<and>
   count_list (calls (snd (handle create_handler (Command ''CreateX'' ''job-1'') fresh_world)))
     CloseDbSession \<noteq> 1"
proof -
  have "calls (snd (handle create_handler (Command ''CreateX'' ''job-1'') fresh_world)) =
     [SetDbSession, SetDbSession, RepoAdd 0, Commit, CloseDbSession, Commit, CloseDbSession]"
    by (simp add: handle_def handle_try_def handle_catch_def create_handler_def work_add_def
        envelope_def enter_def uow_exit_def commit_def collectNewEvents_def raise_event_def
        addMessages_def finish_def with_repo_def call_sync_def call_await_def and_then_def
        try_catch_def try_finally_def ret_def throw_def memory_uow_def memory_repo_def
        quiet_def see_def fresh_world_def)
  then show ?thesis by simp
qed





lemmas run_defs =
  handle_def handle_try_def handle_catch_def work_add_def work_update_def envelope_def
  enter_def uow_exit_def commit_def collectNewEvents_def logError_def logException_def
  console_error_def raise_event_def addMessages_def finish_def with_repo_def call_sync_def
  call_await_def and_then_def try_catch_def try_finally_def ret_def throw_def

lemmas demo_defs =
  create_handler_def boom_handler_def notify_handler_def memory_uow_def rejecting_uow_def
  memory_repo_def rejecting_repo_def quiet_def see_def boom_def x_created_def addEvent_def
  blank_domain_def fresh_world_def



section \<open>Where the code leaves the documented protocol\<close>

text \<open>
  C2. A handler with a Unit of Work whose \<^verbatim>\<open>_handle\<close> throws \<^verbatim>\<open>Error("boom")\<close>:
  \<^verbatim>\<open>handle\<close> rethrows the error, having logged it under the handler's name and closed
  the session once, but \<^verbatim>\<open>exit\<close> is called without the error and the rollback hook
  is never called.
\<close>

theorem handle_error_skips_rollback:
  "fst (handle boom_handler (Command ''CreateX'' ''job-1'') fresh_world) = Inl boom \<and>
   calls (snd (handle boom_handler (Command ''CreateX'' ''job-1'') fresh_world)) =
     [SetDbSession, ConsoleError ''CreateXHandler | Error: boom | Context: undefined'',
      CloseDbSession] \<and>
   Rollback \<notin> set (calls (snd (handle boom_handler (Command ''CreateX'' ''job-1'') fresh_world)))"
  by (simp add: run_defs demo_defs)

text \<open>
  C4. \<^verbatim>\<open>add\<close> on a repository whose \<^verbatim>\<open>add\<close> rejects with \<^verbatim>\<open>Error("boom")\<close>: the
  session is opened once and closed twice, by \<^verbatim>\<open>exit(error)\<close> in the \<^verbatim>\<open>catch\<close> block and
  again by \<^verbatim>\<open>exit()\<close> in the \<^verbatim>\<open>finally\<close> block.
\<close>

theorem add_error_closes_session_twice:
  "fst (work_add rejecting_uow 0 fresh_world) = Inl boom \<and>
   calls (snd (work_add rejecting_uow 0 fresh_world)) =
     [SetDbSession, RepoAdd 0, ConsoleError ''Exception in UnitOfWork: Error - boom'', Rollback,
      CloseDbSession, CloseDbSession] \<and>
   count_list (calls (snd (work_add rejecting_uow 0 fresh_world))) SetDbSession = 1 \<and>
   count_list (calls (snd (work_add rejecting_uow 0 fresh_world))) CloseDbSession = 2"
  by (simp add: run_defs demo_defs)

text \<open>
  C5. \<^verbatim>\<open>update\<close> on a repository whose \<^verbatim>\<open>update\<close> rejects with \<^verbatim>\<open>Error("boom")\<close>: the
  promise is not awaited, so the envelope commits, closes the session and returns
  normally; nothing is logged and the rollback hook is not called. The same repository
  failure in \<^verbatim>\<open>add\<close>, which awaits, is rethrown.
\<close>

theorem update_rejection_is_dropped:
  "fst (work_update rejecting_uow 0 fresh_world) = Inr () \<and>
   calls (snd (work_update rejecting_uow 0 fresh_world)) =
     [SetDbSession, RepoUpdate 0, Commit, CloseDbSession] \<and>
   fst (work_add rejecting_uow 0 fresh_world) = Inl boom"
  by (simp add: run_defs demo_defs)

end
